theory Spec2Isabelle
  imports Complex_Main "HOL-Library.Product_Lexorder"
begin

section \<open>Numbers and arrays\<close>

text \<open>
  The sources compute with C++ \<^verbatim>\<open>double\<close> values held in dense two-dimensional arrays.
  A double is modelled by the type \<open>dbl\<close>: a finite value is an exact real number (rounding
  and overflow are not modelled), and the three special values of IEEE 754 arithmetic that
  the code can produce by a division by zero or by the constant \<^verbatim>\<open>INFINITY\<close> are kept as
  values of their own.  Signed zeros are not distinguished; a zero denominator counts as
  \<open>+0\<close>, which is what a square root or a sum of squares gives.
\<close>

datatype dbl = Fin real | PInf | NInf | NaN

type_synonym matrix = "dbl list list"

text \<open>
  A \<^verbatim>\<open>Functional\<close> of distmesh.cpp (the distance function, the element size function) is
  evaluated on the rows of an array, one value for each row; the functions that utils.cpp
  takes map one row to a value.
\<close>

type_synonym functional = "dbl list \<Rightarrow> dbl"


fun neg_d :: "dbl \<Rightarrow> dbl" where
  "neg_d (Fin a) = Fin (- a)"
| "neg_d PInf = NInf"
| "neg_d NInf = PInf"
| "neg_d NaN = NaN"

fun add_d :: "dbl \<Rightarrow> dbl \<Rightarrow> dbl" where
  "add_d (Fin a) (Fin b) = Fin (a + b)"
| "add_d NaN _ = NaN"
| "add_d _ NaN = NaN"
| "add_d PInf NInf = NaN"
| "add_d NInf PInf = NaN"
| "add_d PInf _ = PInf"
| "add_d _ PInf = PInf"
| "add_d NInf _ = NInf"
| "add_d _ NInf = NInf"

definition sub_d :: "dbl \<Rightarrow> dbl \<Rightarrow> dbl" where
  "sub_d x y = add_d x (neg_d y)"

text \<open>The sign of a value: \<open>Some True\<close> for positive, \<open>Some False\<close> for negative, \<open>None\<close> for
  zero and for \<open>NaN\<close>.\<close>

fun positive :: "dbl \<Rightarrow> bool option" where
  "positive (Fin a) = (if 0 < a then Some True else if a < 0 then Some False else None)"
| "positive PInf = Some True"
| "positive NInf = Some False"
| "positive NaN = None"

definition signed_inf :: "bool \<Rightarrow> dbl" where
  "signed_inf pos = (if pos then PInf else NInf)"

fun mul_d :: "dbl \<Rightarrow> dbl \<Rightarrow> dbl" where
  "mul_d (Fin a) (Fin b) = Fin (a * b)"
| "mul_d NaN _ = NaN"
| "mul_d _ NaN = NaN"
| "mul_d x y =
     (case (positive x, positive y) of
        (Some p, Some q) \<Rightarrow> signed_inf (p = q)
      | _ \<Rightarrow> NaN)"

text \<open>Division follows IEEE 754: nothing is raised, a non-zero value over zero is an
  infinity, zero over zero and infinity over infinity are \<open>NaN\<close>.\<close>

fun div_d :: "dbl \<Rightarrow> dbl \<Rightarrow> dbl" where
  "div_d NaN _ = NaN"
| "div_d _ NaN = NaN"
| "div_d (Fin a) (Fin b) =
     (if b \<noteq> 0 then Fin (a / b)
      else if 0 < a then PInf else if a < 0 then NInf else NaN)"
| "div_d (Fin a) _ = Fin 0"
| "div_d x (Fin b) = (if 0 \<le> b then x else neg_d x)"
| "div_d _ _ = NaN"

fun sqrt_d :: "dbl \<Rightarrow> dbl" where
  "sqrt_d (Fin a) = (if 0 \<le> a then Fin (sqrt a) else NaN)"
| "sqrt_d PInf = PInf"
| "sqrt_d NInf = NaN"
| "sqrt_d NaN = NaN"

text \<open>Comparisons with \<open>NaN\<close> are false.\<close>

fun lt_d :: "dbl \<Rightarrow> dbl \<Rightarrow> bool" where
  "lt_d (Fin a) (Fin b) = (a < b)"
| "lt_d NaN _ = False"
| "lt_d _ NaN = False"
| "lt_d NInf NInf = False"
| "lt_d NInf _ = True"
| "lt_d _ NInf = False"
| "lt_d PInf _ = False"
| "lt_d _ PInf = True"

definition gt_d :: "dbl \<Rightarrow> dbl \<Rightarrow> bool" where
  "gt_d x y = lt_d y x"

definition le_d :: "dbl \<Rightarrow> dbl \<Rightarrow> bool" where
  "le_d x y = (x \<noteq> NaN \<and> y \<noteq> NaN \<and> \<not> lt_d y x)"

text \<open>\<^verbatim>\<open>array.max(scalar)\<close> of Eigen applies \<^verbatim>\<open>std::max(a, b)\<close>, that is
  \<^verbatim>\<open>(a < b) ? b : a\<close>, to every coefficient.\<close>

definition max_d :: "dbl \<Rightarrow> dbl \<Rightarrow> dbl" where
  "max_d a b = (if lt_d a b then b else a)"

text \<open>\<^verbatim>\<open>std::pow(x, n)\<close> for an exponent that is a non-negative integer (the dimension):
  repeated multiplication, with \<^verbatim>\<open>pow(x, 0) = 1\<close> for every \<open>x\<close>.\<close>

fun pow_nat :: "dbl \<Rightarrow> nat \<Rightarrow> dbl" where
  "pow_nat x 0 = Fin 1"
| "pow_nat x (Suc n) = mul_d x (pow_nat x n)"

text \<open>\<^verbatim>\<open>std::pow(x, 1.0 / n)\<close>.  With \<open>n = 1\<close> the exponent is one and the result is \<open>x\<close>.
  With \<open>n \<ge> 2\<close> the exponent is a positive fraction: the \<open>n\<close>-th root of a non-negative
  value, \<open>NaN\<close> for a negative finite base, and \<open>+infinity\<close> for an infinite base of either
  sign.  With \<open>n = 0\<close> the exponent \<^verbatim>\<open>1.0 / 0\<close> is \<open>+infinity\<close>.\<close>

fun pow_inv :: "dbl \<Rightarrow> nat \<Rightarrow> dbl" where
  "pow_inv x (Suc 0) = x"
| "pow_inv NaN n = NaN"
| "pow_inv (Fin a) 0 = (if \<bar>a\<bar> < 1 then Fin 0 else if \<bar>a\<bar> = 1 then Fin 1 else PInf)"
| "pow_inv x 0 = PInf"
| "pow_inv (Fin a) n = (if 0 \<le> a then Fin (root n a) else NaN)"
| "pow_inv PInf n = PInf"
| "pow_inv NInf n = PInf"

subsection \<open>Rows, columns and loops\<close>

text \<open>
  An array is the list of its rows.  Eigen checks every coefficient access against the
  shape of the array and stops the program when the check fails; such a stop is the value
  \<open>Inl\<close> of the model.
\<close>

datatype error = EmptyArray | IndexOutOfRange

definition at_e :: "'a list \<Rightarrow> int \<Rightarrow> error + 'a" where
  "at_e xs i = (if 0 \<le> i \<and> nat i < length xs then Inr (xs ! nat i) else Inl IndexOutOfRange)"

definition ncols :: "'a list list \<Rightarrow> nat" where
  "ncols m = (case m of [] \<Rightarrow> 0 | r # _ \<Rightarrow> length r)"

text \<open>\<^verbatim>\<open>for (i = 0; i < n; ++i) body\<close> over a state, stopping at the first failed check.\<close>

fun foldM_e :: "('a \<Rightarrow> 's \<Rightarrow> error + 's) \<Rightarrow> 'a list \<Rightarrow> 's \<Rightarrow> error + 's" where
  "foldM_e f [] s = Inr s"
| "foldM_e f (x # xs) s = (case f x s of Inl e \<Rightarrow> Inl e | Inr s' \<Rightarrow> foldM_e f xs s')"

definition for_e :: "nat \<Rightarrow> (nat \<Rightarrow> 's \<Rightarrow> error + 's) \<Rightarrow> 's \<Rightarrow> error + 's" where
  "for_e n body s = foldM_e body [0..<n] s"

fun mapM_e :: "('a \<Rightarrow> error + 'b) \<Rightarrow> 'a list \<Rightarrow> error + 'b list" where
  "mapM_e f [] = Inr []"
| "mapM_e f (x # xs) =
     (case f x of Inl e \<Rightarrow> Inl e
      | Inr y \<Rightarrow> (case mapM_e f xs of Inl e \<Rightarrow> Inl e | Inr ys \<Rightarrow> Inr (y # ys)))"

text \<open>Coefficient-wise operations on rows and the reductions of Eigen.\<close>

definition row_add :: "dbl list \<Rightarrow> dbl list \<Rightarrow> dbl list" where
  "row_add xs ys = map2 add_d xs ys"

definition row_sub :: "dbl list \<Rightarrow> dbl list \<Rightarrow> dbl list" where
  "row_sub xs ys = map2 sub_d xs ys"

definition square :: "dbl \<Rightarrow> dbl" where
  "square x = mul_d x x"

definition sum_d :: "dbl list \<Rightarrow> dbl" where
  "sum_d xs = foldr add_d xs (Fin 0)"

text \<open>\<^verbatim>\<open>maxCoeff()\<close>: Eigen asserts that the array is not empty, starts from the first
  coefficient and replaces the running maximum by every later coefficient that compares
  greater.\<close>

fun maxCoeff :: "dbl list \<Rightarrow> error + dbl" where
  "maxCoeff [] = Inl EmptyArray"
| "maxCoeff (x # xs) = Inr (foldl (\<lambda>res v. if gt_d v res then v else res) x xs)"

section \<open>utils.cpp: unique bars\<close>

text \<open>
  \<^verbatim>\<open>std::set<std::array<index, 2>>\<close> keeps its elements in increasing lexicographic order
  without repetition; it is modelled by the sorted list of its elements, and
  \<open>set_insert\<close> is its \<^verbatim>\<open>insert\<close>.
\<close>

definition set_insert :: "'a::linorder \<Rightarrow> 'a list \<Rightarrow> 'a list" where
  "set_insert x s = (if x \<in> set s then s else insort x s)"

text \<open>
  \<open>find_unique_bars\<close> reads of its argument \<^verbatim>\<open>points\<close> only \<^verbatim>\<open>points->cols()\<close>, which is the
  parameter \<open>cols\<close>.  The final loop copies the set, in its order, into the rows of the
  result.
\<close>

definition find_unique_bars :: "nat \<Rightarrow> int list list \<Rightarrow> error + (int \<times> int) list" where
  "find_unique_bars cols triangulation =
     for_e (length triangulation) (\<lambda>triangle.
       for_e (cols + 1) (\<lambda>i bar_indices_set.
         case at_e (triangulation ! triangle) (int i) of Inl e \<Rightarrow> Inl e
         | Inr a \<Rightarrow>
        (case at_e (triangulation ! triangle) (int ((i + 1) mod (cols + 1))) of Inl e \<Rightarrow> Inl e
         | Inr b \<Rightarrow>
           Inr (set_insert (if a > b then (a, b) else (b, a)) bar_indices_set)))) []"

text \<open>
  \<open>bar_of row n i\<close> is the pair that the loop body builds for entry \<open>i\<close> of a row of \<open>n\<close>
  entries, the larger index first, and \<open>unordered\<close> forgets the order of a pair.
\<close>

definition bar_of :: "int list \<Rightarrow> nat \<Rightarrow> nat \<Rightarrow> int \<times> int" where
  "bar_of row n i =
     (if row ! i > row ! ((i + 1) mod n) then (row ! i, row ! ((i + 1) mod n))
      else (row ! ((i + 1) mod n), row ! i))"

definition unordered :: "int \<times> int \<Rightarrow> int set" where
  "unordered e = {fst e, snd e}"

text \<open>
  Modelled from the spec: \<^verbatim>\<open>utils::findUniqueEdges(triangulation)\<close> is not among the sources
  under that name; it is the edge extractor of the spec, \<open>uniqueEdges(simplices)\<close>, applied
  to an array whose rows hold \<open>D + 1\<close> indices.  The sources hold this operation as
  \<open>find_unique_bars\<close>, which takes \<open>D\<close> from the point array.
\<close>

definition findUniqueEdges :: "int list list \<Rightarrow> error + (int \<times> int) list" where
  "findUniqueEdges triangulation = find_unique_bars (ncols triangulation - 1) triangulation"

section \<open>utils.cpp: projection onto the boundary\<close>

text \<open>\<^verbatim>\<open>std::numeric_limits<double>::epsilon()\<close>.\<close>

definition machine_epsilon :: real where
  "machine_epsilon = 1 / 2 ^ 52"

text \<open>
  The distance function of \<open>project_points_to_function\<close> maps one row of coordinates to a
  number.  \<open>gradient_row\<close> is the inner loop over \<^verbatim>\<open>dim\<close> (written \<open>dim'\<close>): \<^verbatim>\<open>deltaX\<close>
  is zero except for the step at \<^verbatim>\<open>dim\<close>.
\<close>

definition deltaX :: "nat \<Rightarrow> dbl \<Rightarrow> nat \<Rightarrow> dbl list" where
  "deltaX cols initial_edge_length dim' =
     (replicate cols (Fin 0))[dim' := mul_d (sqrt_d (Fin machine_epsilon)) initial_edge_length]"

definition gradient_row :: "(dbl list \<Rightarrow> dbl) \<Rightarrow> dbl \<Rightarrow> dbl list \<Rightarrow> dbl \<Rightarrow> dbl list" where
  "gradient_row distance_function initial_edge_length row distance =
     map (\<lambda>dim'.
            div_d (sub_d (distance_function (row_add row (deltaX (length row) initial_edge_length dim')))
                         distance)
                  (mul_d (sqrt_d (Fin machine_epsilon)) initial_edge_length))
         [0..<length row]"

definition project_row :: "dbl list \<Rightarrow> dbl \<Rightarrow> dbl list \<Rightarrow> dbl list" where
  "project_row row distance gradient =
     row_sub row (map (\<lambda>g. div_d (mul_d distance g) (sum_d (map square gradient))) gradient)"

definition project_points_to_function :: "(dbl list \<Rightarrow> dbl) \<Rightarrow> dbl \<Rightarrow> matrix \<Rightarrow> matrix" where
  "project_points_to_function distance_function initial_edge_length points =
     (let distance = map distance_function points;
          outside = map (\<lambda>d. gt_d d (Fin 0)) distance
      in if list_ex (\<lambda>b. b) outside then
           fold (\<lambda>point points.
                   if outside ! point then
                     points[point := project_row (points ! point) (distance ! point)
                        (gradient_row distance_function initial_edge_length (points ! point)
                           (distance ! point))]
                   else points)
                [0..<length points] points
         else points)"

text \<open>
  The projection in the words of the spec, for one point \<open>p\<close>: the step is
  \<open>eps = sqrt(machineEpsilon) * h0\<close>, the gradient is
  \<open>grad[k] = (distanceField(p + eps*e_k) - d) / eps\<close> and the point becomes
  \<open>p - d * grad / |grad|^2\<close>.
\<close>

definition fd_gradient :: "functional \<Rightarrow> dbl \<Rightarrow> dbl list \<Rightarrow> nat \<Rightarrow> dbl" where
  "fd_gradient df h0 p k =
     (let eps = mul_d (sqrt_d (Fin machine_epsilon)) h0
      in div_d (sub_d (df (p[k := add_d (p ! k) eps])) (df p)) eps)"

definition newton_projection :: "functional \<Rightarrow> dbl \<Rightarrow> dbl list \<Rightarrow> dbl list" where
  "newton_projection df h0 p =
     map (\<lambda>k. sub_d (p ! k)
                (div_d (mul_d (df p) (fd_gradient df h0 p k))
                       (sum_d (map (\<lambda>j. square (fd_gradient df h0 p j)) [0..<length p]))))
         [0..<length p]"

section \<open>distmesh.cpp: the default bounding box\<close>

text \<open>
  \<^verbatim>\<open>Eigen::ArrayXXd box(2, dimension); box.row(0).fill(-1.0); box.row(1).fill(1.0);\<close>
  An array is the list of its rows.  The freshly allocated array holds unspecified values,
  written \<open>NaN\<close> here; \<open>fill_row\<close> overwrites one row and leaves the shape alone.
\<close>

definition alloc :: "nat \<Rightarrow> nat \<Rightarrow> matrix" where
  "alloc rows cols = replicate rows (replicate cols NaN)"

definition fill_row :: "nat \<Rightarrow> dbl \<Rightarrow> matrix \<Rightarrow> matrix" where
  "fill_row r v box = (if r < length box then box[r := map (\<lambda>_. v) (box ! r)] else box)"

definition boundingBox :: "nat \<Rightarrow> matrix" where
  "boundingBox dimension =
     (let box = alloc 2 dimension;
          box = fill_row 0 (Fin (- 1)) box;
          box = fill_row 1 (Fin 1) box
      in box)"

section \<open>distmesh.cpp: boundary edges\<close>

text \<open>
  Lines 146 to 163 of \<^verbatim>\<open>distmesh::boundEdges\<close>.  \<open>boundary_step\<close> is the body of the loops for
  one entry \<^verbatim>\<open>edgeIndex\<close>: \<^verbatim>\<open>uniqueEdges.insert\<close> reports whether the entry was new; an
  entry seen before is looked up in the vector and its first occurrence erased, a new one
  is appended.
\<close>

definition boundary_step :: "int \<Rightarrow> int set \<times> int list \<Rightarrow> int set \<times> int list" where
  "boundary_step edgeIndex st =
     (case st of (uniqueEdges, boundaryEdges) \<Rightarrow>
        if edgeIndex \<in> uniqueEdges then (uniqueEdges, remove1 edgeIndex boundaryEdges)
        else (insert edgeIndex uniqueEdges, boundaryEdges @ [edgeIndex]))"

text \<open>
  Lines 133 to 169: the edge list, the edge indices of every triangle and the vector
  \<^verbatim>\<open>boundaryEdges\<close> as it is copied into the result.  The lines after these (171 to 195)
  change nothing but the signs of the entries, in two dimensions.
  \<^verbatim>\<open>utils::getTriangulationEdgeIndices\<close> is not among the sources and is a parameter.
\<close>

definition boundaryEdges ::
  "(int list list \<Rightarrow> (int \<times> int) list \<Rightarrow> int list list) \<Rightarrow> int list list \<Rightarrow> (int \<times> int) list \<Rightarrow>
   error + int list" where
  "boundaryEdges getTriangulationEdgeIndices tri externalEdges =
     (case (if length externalEdges = 0 then findUniqueEdges tri else Inr externalEdges) of
        Inl e \<Rightarrow> Inl e
      | Inr edges \<Rightarrow>
          (let edgeIndices' = getTriangulationEdgeIndices tri edges in
           case for_e (length tri) (\<lambda>triangle.
                  for_e (ncols tri) (\<lambda>edge st.
                    case at_e edgeIndices' (int triangle) of Inl e \<Rightarrow> Inl e
                    | Inr row \<Rightarrow>
                        (case at_e row (int edge) of Inl e \<Rightarrow> Inl e
                         | Inr edgeIndex \<Rightarrow> Inr (boundary_step edgeIndex st))))
                  ({}, []) of
             Inl e \<Rightarrow> Inl e
           | Inr (uniqueEdges, boundaryEdges') \<Rightarrow> Inr boundaryEdges'))"

text \<open>
  Modelled from the spec: \<^verbatim>\<open>utils::getTriangulationEdgeIndices\<close>, which is not among the
  sources, is \<open>edgeIndicesForSimplices(simplices, edgeArray)\<close>: it maps each of the \<open>D + 1\<close>
  local edges of every simplex (entry \<open>i\<close> paired with entry \<open>(i + 1) mod (D + 1)\<close>) to its
  row index in the edge array.  The theorems about \<open>boundaryEdges\<close> hold for every
  function in its place; this one serves as a concrete instance.
\<close>

definition getTriangulationEdgeIndices :: "int list list \<Rightarrow> (int \<times> int) list \<Rightarrow> int list list" where
  "getTriangulationEdgeIndices tri edges =
     map (\<lambda>row. map (\<lambda>i.
            let a = row ! i; b = row ! ((i + 1) mod length row);
                bar = (if a > b then (a, b) else (b, a))
            in int (length (takeWhile (\<lambda>e. e \<noteq> bar) edges)))
          [0..<length row]) tri"

text \<open>
  The invariant of the loops of \<open>boundaryEdges\<close> after the entries \<open>ys\<close>: the set holds the
  entries seen, the vector holds, once each, the entries seen exactly once.
\<close>

definition seen_once :: "int list \<Rightarrow> int set \<times> int list \<Rightarrow> bool" where
  "seen_once ys st = (fst st = set ys \<and> distinct (snd st) \<and> set (snd st) = {e. count_list ys e = 1})"

section \<open>distmesh.cpp: collaborators of the relaxation loop\<close>

text \<open>
  Modelled from the spec: \<^verbatim>\<open>utils::selectIndexedArrayElements\<close> is not among the sources; it
  is the generic "gather rows by index": row \<open>k\<close> of the result is the row of the array
  that entry \<open>k\<close> of the index column names.  An index outside the array fails Eigen's
  check.
\<close>

definition selectIndexedArrayElements :: "'a list \<Rightarrow> int list \<Rightarrow> error + 'a list" where
  "selectIndexedArrayElements array indices = mapM_e (at_e array) indices"

text \<open>
  Modelled from the spec: \<^verbatim>\<open>utils::selectMaskedArrayElements\<close> is not among the sources; it
  is the generic "filter rows by boolean mask": the rows whose mask entry is true, in
  their order.
\<close>

definition selectMaskedArrayElements :: "'a list \<Rightarrow> bool list \<Rightarrow> 'a list" where
  "selectMaskedArrayElements array mask' = map fst (filter snd (zip array mask'))"


text \<open>
  The header \<^verbatim>\<open>distmesh/constants.h\<close> is not among the sources: its constants are the
  fields of a record that every definition below takes as a parameter.
\<close>

record constants =
  maxSteps :: nat
  retriangulationThreshold :: dbl
  geometryEvaluationThreshold :: dbl
  pointsMovementThreshold :: dbl
  deltaT :: dbl

text \<open>
  What one run of \<^verbatim>\<open>distmesh::distmesh\<close> reads and never writes: the constants, the
  triangulator \<^verbatim>\<open>triangulation::delaunay\<close> (an external collaborator, any function from
  point arrays to simplex arrays), the arguments of the call, \<^verbatim>\<open>dimension\<close>
  (\<^verbatim>\<open>boundingBox.cols()\<close>) and \<^verbatim>\<open>fixedPoints.rows()\<close>.
\<close>

record run =
  cst :: constants
  delaunay :: "matrix \<Rightarrow> int list list"
  distanceFunction :: functional
  initialPointDistance :: dbl
  elementSizeFunction :: functional
  dimension :: nat
  fixedPoints_rows :: nat

text \<open>
  The variables that the main loop updates.  \<^verbatim>\<open>Eigen::ArrayXXi edgeIndices;\<close> is declared
  without rows or columns: \<open>None\<close> is that array, which has no column \<open>0\<close> to read, and
  \<open>Some edges\<close> is an array of two columns, one row for each pair.
\<close>

record loop_state =
  points :: matrix
  triangulation :: "int list list"
  edgeIndices :: "(int \<times> int) list option"
  retriangulationCriterionBuffer :: matrix
  stopCriterionBuffer :: matrix

section \<open>distmesh.cpp: one iteration of the main loop\<close>

text \<open>\<^verbatim>\<open>(a - b).square().rowwise().sum().sqrt().maxCoeff()\<close>\<close>

definition max_displacement :: "matrix \<Rightarrow> matrix \<Rightarrow> error + dbl" where
  "max_displacement a b =
     maxCoeff (map (\<lambda>(r, q). sqrt_d (sum_d (map square (row_sub r q)))) (zip a b))"

text \<open>
  Lines 69 to 73: the array called \<^verbatim>\<open>circumcenter\<close> starts at zero and receives, for every
  column of the triangulation, the selected points divided by the number of columns.
\<close>

definition circumcenter :: "matrix \<Rightarrow> int list list \<Rightarrow> nat \<Rightarrow> error + matrix" where
  "circumcenter pts tri dimension' =
     for_e (ncols tri) (\<lambda>point c.
         case selectIndexedArrayElements pts (map (\<lambda>r. r ! point) tri) of Inl e \<Rightarrow> Inl e
         | Inr sel \<Rightarrow>
             Inr (map2 row_add c (map (map (\<lambda>x. div_d x (Fin (real (ncols tri))))) sel)))
       (replicate (length tri) (replicate dimension' (Fin 0)))"

text \<open>
  The centroid in the words of the spec: the mean of the coordinates of the vertices of
  a simplex, in each of the \<open>D\<close> dimensions.
\<close>

definition centroid :: "matrix \<Rightarrow> nat \<Rightarrow> int list \<Rightarrow> dbl list" where
  "centroid pts D simplex =
     map (\<lambda>k. div_d (sum_d (map (\<lambda>v. pts ! nat v ! k) simplex)) (Fin (real (length simplex))))
         [0..<D]"

text \<open>
  The array \<^verbatim>\<open>circumcenter\<close> after \<open>j\<close> columns of a triangulation of \<open>n\<close> columns: the row
  of the simplex \<open>t\<close>.
\<close>

definition partial_mean :: "matrix \<Rightarrow> nat \<Rightarrow> nat \<Rightarrow> nat \<Rightarrow> int list \<Rightarrow> dbl list" where
  "partial_mean pts D n j t =
     map (\<lambda>k. sum_d (map (\<lambda>i. div_d (pts ! nat (t ! i) ! k) (Fin (real n))) [0..<j])) [0..<D]"

text \<open>Lines 65 to 81: the body of the retriangulation branch.\<close>

definition retriangulate :: "run \<Rightarrow> loop_state \<Rightarrow> error + loop_state" where
  "retriangulate r s =
     (let tri = delaunay r (points s) in
      case circumcenter (points s) tri (dimension r) of Inl e \<Rightarrow> Inl e
      | Inr c \<Rightarrow>
          (let tri = selectMaskedArrayElements tri
                       (map (\<lambda>d. lt_d d (mul_d (neg_d (geometryEvaluationThreshold (cst r)))
                                                  (initialPointDistance r)))
                            (map (distanceFunction r) c))
           in case findUniqueEdges tri of Inl e \<Rightarrow> Inl e
              | Inr edges \<Rightarrow>
                  Inr (s\<lparr>triangulation := tri, edgeIndices := Some edges,
                         retriangulationCriterionBuffer := points s\<rparr>)))"

text \<open>Lines 63 and 64: the test of the retriangulation branch.\<close>

definition retriangulation_due :: "run \<Rightarrow> loop_state \<Rightarrow> error + bool" where
  "retriangulation_due r s =
     (case max_displacement (points s) (retriangulationCriterionBuffer s) of Inl e \<Rightarrow> Inl e
      | Inr m \<Rightarrow>
          Inr (gt_d m (mul_d (retriangulationThreshold (cst r)) (initialPointDistance r))))"

text \<open>
  Lines 84 to 101.  \<^verbatim>\<open>dimension - 1\<close> is a subtraction of \<^verbatim>\<open>unsigned\<close> values, which wraps
  around at \<open>2 ^ 32\<close>.
\<close>

definition bias :: "nat \<Rightarrow> dbl" where
  "bias dimension' =
     add_d (Fin 1) (div_d (Fin (4 / 10)) (pow_nat (Fin 2) ((dimension' + 2 ^ 32 - 1) mod 2 ^ 32)))"

definition edgeLength_of :: "matrix \<Rightarrow> dbl list" where
  "edgeLength_of edgeVector = map (\<lambda>v. sqrt_d (sum_d (map square v))) edgeVector"

definition desiredEdgeLength_of :: "nat \<Rightarrow> dbl list \<Rightarrow> dbl list \<Rightarrow> dbl list" where
  "desiredEdgeLength_of dimension' desiredElementSize edgeLength =
     map (\<lambda>h. mul_d (mul_d h (bias dimension'))
                  (pow_inv (div_d (sum_d (map (\<lambda>l. pow_nat l dimension') edgeLength))
                                  (sum_d (map (\<lambda>h. pow_nat h dimension') desiredElementSize)))
                           dimension'))
         desiredElementSize"

definition force_magnitude :: "dbl list \<Rightarrow> dbl list \<Rightarrow> dbl list" where
  "force_magnitude desiredEdgeLength edgeLength =
     map2 (\<lambda>l0 l. max_d (div_d (sub_d l0 l) l) (Fin 0)) desiredEdgeLength edgeLength"

definition forceVector_of :: "run \<Rightarrow> matrix \<Rightarrow> (int \<times> int) list \<Rightarrow> error + matrix" where
  "forceVector_of r pts edges =
     (case selectIndexedArrayElements pts (map fst edges) of Inl e \<Rightarrow> Inl e
      | Inr p0 \<Rightarrow>
     (case selectIndexedArrayElements pts (map snd edges) of Inl e \<Rightarrow> Inl e
      | Inr p1 \<Rightarrow>
         (let edgeVector = map2 row_sub p0 p1;
              edgeLength = edgeLength_of edgeVector;
              desiredElementSize =
                map (elementSizeFunction r) (map (map (mul_d (Fin (1 / 2)))) (map2 row_add p0 p1));
              desiredEdgeLength = desiredEdgeLength_of (dimension r) desiredElementSize edgeLength
          in Inr (map2 (\<lambda>v f. map (\<lambda>x. mul_d x f) v) edgeVector
                       (force_magnitude desiredEdgeLength edgeLength)))))"

text \<open>
  The force law in the words of the spec.  An edge is a pair of point indices; its vector
  is the difference of its two points, its length the Euclidean norm of the vector, its
  midpoint half their sum.  The scale is \<open>(sum(length^D) / sum(L0_raw^D))^(1/D)\<close>, the
  desired length \<open>L0 = L0_raw * bias * scale\<close> with \<open>bias = 1 + 0.4 / 2^(D-1)\<close>, and the
  force magnitude \<open>max((L0 - length) / length, 0)\<close>.
\<close>

definition edge_vector :: "matrix \<Rightarrow> int \<times> int \<Rightarrow> dbl list" where
  "edge_vector pts e = row_sub (pts ! nat (fst e)) (pts ! nat (snd e))"

definition edge_length :: "matrix \<Rightarrow> int \<times> int \<Rightarrow> dbl" where
  "edge_length pts e = sqrt_d (sum_d (map square (edge_vector pts e)))"

definition edge_midpoint :: "matrix \<Rightarrow> int \<times> int \<Rightarrow> dbl list" where
  "edge_midpoint pts e = map (mul_d (Fin (1 / 2))) (row_add (pts ! nat (fst e)) (pts ! nat (snd e)))"

definition density_scale :: "nat \<Rightarrow> dbl list \<Rightarrow> dbl list \<Rightarrow> dbl" where
  "density_scale D lengths raw =
     pow_inv (div_d (sum_d (map (\<lambda>l. pow_nat l D) lengths)) (sum_d (map (\<lambda>h. pow_nat h D) raw))) D"

definition desired_length :: "nat \<Rightarrow> dbl \<Rightarrow> dbl list \<Rightarrow> dbl list \<Rightarrow> dbl" where
  "desired_length D L0_raw lengths raw =
     mul_d (mul_d L0_raw (Fin (1 + (4 / 10) / 2 ^ (D - 1)))) (density_scale D lengths raw)"

definition spring_force :: "dbl \<Rightarrow> dbl \<Rightarrow> dbl" where
  "spring_force L0 len = max_d (div_d (sub_d L0 len) len) (Fin 0)"



text \<open>
  Lines 62 to 82: the test and, where it holds, the branch.
\<close>

definition retriangulation_phase :: "run \<Rightarrow> loop_state \<Rightarrow> error + loop_state" where
  "retriangulation_phase r s =
     (case retriangulation_due r s of Inl e \<Rightarrow> Inl e
      | Inr due \<Rightarrow> if due then retriangulate r s else Inr s)"




section \<open>distmesh.cpp: the main loop and the entry point\<close>


text \<open>
  \<^verbatim>\<open>utils::createInitialPoints\<close> is not among the sources and is a parameter of the entry
  point, as the triangulator is.  The buffers have the shape of the points:
  \<^verbatim>\<open>Constant(rows, cols, INFINITY)\<close> and \<^verbatim>\<open>Zero(rows, cols)\<close>.
\<close>

definition initial_state :: "matrix \<Rightarrow> int list list \<Rightarrow> loop_state" where
  "initial_state pts tri =
     \<lparr>points = pts, triangulation = tri, edgeIndices = None,
      retriangulationCriterionBuffer = map (map (\<lambda>_. PInf)) pts,
      stopCriterionBuffer = map (map (\<lambda>_. Fin 0)) pts\<rparr>"


section \<open>A run on the line\<close>

text \<open>
  A concrete run in one dimension, at which the theorems below are instantiated: the
  domain is the half-line \<open>x \<le> 1\<close> with distance \<open>x - 1\<close>, the element size is \<open>1\<close>
  everywhere, the triangulator joins point \<open>0\<close> and point \<open>1\<close>, and point \<open>0\<close> is the one
  fixed point.  The constants have the values of libDistMesh but for the iteration cap.
\<close>

definition example_constants :: constants where
  "example_constants =
     \<lparr>maxSteps = 3, retriangulationThreshold = Fin (1 / 10),
      geometryEvaluationThreshold = Fin (1 / 1000), pointsMovementThreshold = Fin (1 / 1000),
      deltaT = Fin (1 / 10)\<rparr>"

definition example_run :: run where
  "example_run =
     \<lparr>cst = example_constants, delaunay = (\<lambda>pts. [[0, 1]]),
      distanceFunction = (\<lambda>p. sub_d (p ! 0) (Fin 1)), initialPointDistance = Fin 1,
      elementSizeFunction = (\<lambda>p. Fin 1), dimension = 1, fixedPoints_rows = 1\<rparr>"

text \<open>
  A distance function that is \<open>1\<close> at every point: every point is outside, and the
  numerical gradient is zero.
\<close>

definition outside_everywhere :: functional where
  "outside_everywhere p = Fin 1"

section \<open>Loops that pass every check\<close>

lemma foldM_e_pure:
  "(\<And>x s. x \<in> set xs \<Longrightarrow> f x s = Inr (g x s)) \<Longrightarrow> foldM_e f xs s = Inr (fold g xs s)"
  by (induction xs arbitrary: s) simp_all

lemma for_e_pure:
  "(\<And>i s. i < n \<Longrightarrow> body i s = Inr (g i s)) \<Longrightarrow> for_e n body s = Inr (fold g [0..<n] s)"
  unfolding for_e_def by (rule foldM_e_pure) simp

lemma at_e_in_range: "i < length xs \<Longrightarrow> at_e xs (int i) = Inr (xs ! i)"
  by (simp add: at_e_def)

lemma fold_nth_upt: "fold (\<lambda>i. f (xs ! i)) [0..<length xs] s = fold f xs s"
proof -
  have "fold (\<lambda>i. f (xs ! i)) [0..<length xs] s = fold f (map (\<lambda>i. xs ! i) [0..<length xs]) s"
    by (simp add: fold_map comp_def)
  then show ?thesis by (simp add: map_nth)
qed

lemma fold_concat_rows: "fold (\<lambda>row s. fold f row s) rows s = fold f (concat rows) s"
  by (induction rows arbitrary: s) simp_all

section \<open>The default bounding box\<close>

lemma boundingBox_rows:
  "boundingBox d = [replicate d (Fin (- 1)), replicate d (Fin 1)]"
  by (simp add: boundingBox_def alloc_def fill_row_def Let_def numeral_2_eq_2 map_replicate_const)

text \<open>
  Claim C9 as stated: for every \<open>d \<ge> 1\<close> the result is the \<open>d \<times> 2\<close> array whose rows are all
  \<open>[-1, 1]\<close>.  For \<open>d = 3\<close> the result has two rows of three entries: the row of the minima
  and the row of the maxima.
\<close>

theorem boundingBox_shape_counterexample:
  "boundingBox 3 = [[Fin (- 1), Fin (- 1), Fin (- 1)], [Fin 1, Fin 1, Fin 1]] \<and>
   boundingBox 3 \<noteq> replicate 3 [Fin (- 1), Fin 1]"
  by (simp add: boundingBox_rows numeral_3_eq_3)

text \<open>
  Claim C9, amended: for every \<open>d\<close> the result is the \<open>2 \<times> d\<close> array whose row \<open>0\<close> holds \<open>-1\<close>
  in every entry and whose row \<open>1\<close> holds \<open>1\<close> in every entry, so that every column \<open>k < d\<close> is
  the pair \<open>[-1, 1]\<close> of the minimum and the maximum of dimension \<open>k\<close>.
\<close>

theorem boundingBox_layout:
  "boundingBox d = [replicate d (Fin (- 1)), replicate d (Fin 1)] \<and>
   (\<forall>k<d. map (\<lambda>row. row ! k) (boundingBox d) = [Fin (- 1), Fin 1])"
  by (simp add: boundingBox_rows)

theorem boundingBox_layout_witness:
  "boundingBox 2 = [[Fin (- 1), Fin (- 1)], [Fin 1, Fin 1]] \<and>
   map (\<lambda>row. row ! 0) (boundingBox 2) = [Fin (- 1), Fin 1] \<and>
   map (\<lambda>row. row ! 1) (boundingBox 2) = [Fin (- 1), Fin 1]"
  using boundingBox_layout [of 2] by (simp add: numeral_2_eq_2)

section \<open>Boundary edges\<close>

lemma count_list_snoc: "count_list (ys @ [x]) e = count_list ys e + (if x = e then 1 else 0)"
  by (induction ys) simp_all

lemma boundary_step_old:
  assumes "x \<in> set ys" "distinct B" "set B = {e. count_list ys e = 1}"
  shows "distinct (remove1 x B) \<and> set (remove1 x B) = {e. count_list (ys @ [x]) e = 1}"
proof -
  have nz: "count_list ys x \<noteq> 0" using assms(1) by (simp add: count_list_0_iff)
  have "set (remove1 x B) = set B - {x}" using assms(2) by simp
  also have "\<dots> = {e. count_list ys e = 1} - {x}" using assms(3) by simp
  also have "\<dots> = {e. count_list (ys @ [x]) e = 1}"
  proof (rule set_eqI)
    fix e show "e \<in> {e. count_list ys e = 1} - {x} \<longleftrightarrow> e \<in> {e. count_list (ys @ [x]) e = 1}"
      using nz by (cases "x = e") (simp_all add: count_list_snoc)
  qed
  finally show ?thesis using assms(2) by simp
qed

lemma boundary_step_new:
  assumes "x \<notin> set ys" "distinct B" "set B = {e. count_list ys e = 1}"
  shows "distinct (B @ [x]) \<and> set (B @ [x]) = {e. count_list (ys @ [x]) e = 1}"
proof -
  have z: "count_list ys x = 0" using assms(1) by (simp add: count_list_0_iff)
  then have notin: "x \<notin> set B" using assms(3) by simp
  have "set (B @ [x]) = insert x {e. count_list ys e = 1}" using assms(3) by simp
  also have "\<dots> = {e. count_list (ys @ [x]) e = 1}"
  proof (rule set_eqI)
    fix e show "e \<in> insert x {e. count_list ys e = 1} \<longleftrightarrow> e \<in> {e. count_list (ys @ [x]) e = 1}"
      using z by (cases "x = e") (simp_all add: count_list_snoc)
  qed
  finally show ?thesis using assms(2) notin by simp
qed

lemma boundary_step_seen_once:
  assumes "seen_once ys st"
  shows "seen_once (ys @ [x]) (boundary_step x st)"
proof (cases st)
  case (Pair U B)
  with assms have U: "U = set ys" and d: "distinct B" and B: "set B = {e. count_list ys e = 1}"
    by (simp_all add: seen_once_def)
  show ?thesis
  proof (cases "x \<in> set ys")
    case True
    from boundary_step_old [OF True d B] show ?thesis
      using Pair True U by (simp add: seen_once_def boundary_step_def insert_absorb)
  next
    case False
    from boundary_step_new [OF False d B] show ?thesis
      using Pair False U by (simp add: seen_once_def boundary_step_def)
  qed
qed

lemma fold_boundary_step_seen_once:
  "seen_once ys st \<Longrightarrow> seen_once (ys @ xs) (fold boundary_step xs st)"
proof (induction xs arbitrary: ys st)
  case Nil
  then show ?case by simp
next
  case (Cons x xs)
  from Cons.IH [OF boundary_step_seen_once [OF Cons.prems, of x]] show ?case by simp
qed

lemma boundary_loop:
  assumes "length ei = length tri" and "\<forall>row \<in> set ei. length row = ncols tri"
  shows "for_e (length tri) (\<lambda>triangle.
                  for_e (ncols tri) (\<lambda>edge st.
                    case at_e ei (int triangle) of Inl e \<Rightarrow> Inl e
                    | Inr row \<Rightarrow>
                        (case at_e row (int edge) of Inl e \<Rightarrow> Inl e
                         | Inr edgeIndex \<Rightarrow> Inr (boundary_step edgeIndex st)))) st
         = Inr (fold boundary_step (concat ei) st)"
proof -
  have inner: "for_e (ncols tri) (\<lambda>edge st.
                    case at_e ei (int triangle) of Inl e \<Rightarrow> Inl e
                    | Inr row \<Rightarrow>
                        (case at_e row (int edge) of Inl e \<Rightarrow> Inl e
                         | Inr edgeIndex \<Rightarrow> Inr (boundary_step edgeIndex st))) st
               = Inr (fold boundary_step (ei ! triangle) st)"
    if t: "triangle < length tri" for triangle st
  proof -
    have len: "length (ei ! triangle) = ncols tri" using assms t by simp
    have "for_e (ncols tri) (\<lambda>edge st.
                    case at_e ei (int triangle) of Inl e \<Rightarrow> Inl e
                    | Inr row \<Rightarrow>
                        (case at_e row (int edge) of Inl e \<Rightarrow> Inl e
                         | Inr edgeIndex \<Rightarrow> Inr (boundary_step edgeIndex st))) st
          = Inr (fold (\<lambda>edge. boundary_step ((ei ! triangle) ! edge)) [0..<ncols tri] st)"
      using assms(1) t len by (intro for_e_pure) (simp add: at_e_in_range)
    then show ?thesis using fold_nth_upt [of boundary_step "ei ! triangle" st] len by simp
  qed
  have "for_e (length tri) (\<lambda>triangle.
                  for_e (ncols tri) (\<lambda>edge st.
                    case at_e ei (int triangle) of Inl e \<Rightarrow> Inl e
                    | Inr row \<Rightarrow>
                        (case at_e row (int edge) of Inl e \<Rightarrow> Inl e
                         | Inr edgeIndex \<Rightarrow> Inr (boundary_step edgeIndex st)))) st
        = Inr (fold (\<lambda>triangle. fold boundary_step (ei ! triangle)) [0..<length tri] st)"
    by (intro for_e_pure) (rule inner)
  also have "fold (\<lambda>triangle. fold boundary_step (ei ! triangle)) [0..<length tri] st
             = fold (\<lambda>row. fold boundary_step row) ei st"
    using fold_nth_upt [of "\<lambda>row. fold boundary_step row" ei st] assms(1) by simp
  also have "\<dots> = fold boundary_step (concat ei) st"
    by (rule fold_concat_rows)
  finally show ?thesis .
qed

text \<open>
  Claim C8: whatever edge list is used and whatever the helper returns for it, as long as
  its result has one row for every simplex and one entry for every column of the simplex
  array, the vector of boundary edges (before the signs of the two-dimensional case) holds
  exactly the edge indices that occur exactly once among all entries of that result, each
  of them once.  An index that occurs twice or more is not in it.
\<close>

theorem boundaryEdges_exactly_once:
  assumes "(if length externalEdges = 0 then findUniqueEdges tri else Inr externalEdges) = Inr edges"
    and "length (getEdgeIndices tri edges) = length tri"
    and "\<forall>row \<in> set (getEdgeIndices tri edges). length row = ncols tri"
  shows "\<exists>b. boundaryEdges getEdgeIndices tri externalEdges = Inr b \<and> distinct b \<and>
             set b = {e. count_list (concat (getEdgeIndices tri edges)) e = 1}"
proof -
  obtain U B where UB: "fold boundary_step (concat (getEdgeIndices tri edges)) ({}, []) = (U, B)"
    by (cases "fold boundary_step (concat (getEdgeIndices tri edges)) ({}, [])")
  have "seen_once [] ({}, [])" by (simp add: seen_once_def)
  from fold_boundary_step_seen_once [OF this, of "concat (getEdgeIndices tri edges)"] UB
  have "distinct B \<and> set B = {e. count_list (concat (getEdgeIndices tri edges)) e = 1}"
    by (simp add: seen_once_def)
  moreover have "boundaryEdges getEdgeIndices tri externalEdges = Inr B"
    unfolding boundaryEdges_def assms(1) Let_def
    by (simp only: boundary_loop [OF assms(2,3)] UB sum.case prod.case)
  ultimately show ?thesis by blast
qed

lemma findUniqueEdges_two_triangles:
  "findUniqueEdges [[0, 1, 2], [1, 2, 3]] = Inr [(1, 0), (2, 0), (2, 1), (3, 1), (3, 2)]"
  by (simp add: findUniqueEdges_def find_unique_bars_def ncols_def for_e_def at_e_def
      set_insert_def upt_rec)

lemma getTriangulationEdgeIndices_two_triangles:
  "getTriangulationEdgeIndices [[0, 1, 2], [1, 2, 3]] [(1, 0), (2, 0), (2, 1), (3, 1), (3, 2)]
     = [[0, 2, 1], [2, 4, 3]]"
  by (simp add: getTriangulationEdgeIndices_def upt_rec Let_def)

theorem boundaryEdges_exactly_once_witness:
  "\<exists>b. boundaryEdges getTriangulationEdgeIndices [[0, 1, 2], [1, 2, 3]] [] = Inr b \<and>
       distinct b \<and> set b = {e. count_list [0, 2, 1, 2, 4, 3] e = 1}"
  using boundaryEdges_exactly_once [of "[]" "[[0, 1, 2], [1, 2, 3]]"
      "[(1, 0), (2, 0), (2, 1), (3, 1), (3, 2)]" getTriangulationEdgeIndices]
  by (simp add: findUniqueEdges_two_triangles getTriangulationEdgeIndices_two_triangles ncols_def)

section \<open>Unique bars\<close>

lemma set_set_insert: "set (set_insert x s) = insert x (set s)"
  by (simp add: set_insert_def set_insort_key insert_absorb)

lemma distinct_set_insert: "distinct s \<Longrightarrow> distinct (set_insert x s)"
  by (simp add: set_insert_def distinct_insort)

lemma sorted_set_insert: "sorted s \<Longrightarrow> sorted (set_insert x s)"
  by (simp add: set_insert_def sorted_insort)

lemma fold_set_insert:
  "set (fold (\<lambda>i. set_insert (f i)) is s) = f ` set is \<union> set s \<and>
   (distinct s \<longrightarrow> distinct (fold (\<lambda>i. set_insert (f i)) is s)) \<and>
   (sorted s \<longrightarrow> sorted (fold (\<lambda>i. set_insert (f i)) is s))"
  by (induction "is" arbitrary: s)
     (auto simp: set_set_insert distinct_set_insert sorted_set_insert)

lemma find_unique_bars_inner:
  assumes "length row = cols + 1"
  shows "for_e (cols + 1) (\<lambda>i bar_indices_set.
         case at_e row (int i) of Inl e \<Rightarrow> Inl e
         | Inr a \<Rightarrow>
        (case at_e row (int ((i + 1) mod (cols + 1))) of Inl e \<Rightarrow> Inl e
         | Inr b \<Rightarrow>
           Inr (set_insert (if a > b then (a, b) else (b, a)) bar_indices_set))) s
     = Inr (fold (\<lambda>i. set_insert (bar_of row (cols + 1) i)) [0..<cols + 1] s)"
  using assms by (intro for_e_pure) (simp add: at_e_in_range bar_of_def)

lemma find_unique_bars_pure:
  assumes "\<forall>row \<in> set tri. length row = cols + 1"
  shows "find_unique_bars cols tri =
     Inr (fold (\<lambda>row. fold (\<lambda>i. set_insert (bar_of row (cols + 1) i)) [0..<cols + 1]) tri [])"
proof -
  have "find_unique_bars cols tri =
     Inr (fold (\<lambda>triangle. fold (\<lambda>i. set_insert (bar_of (tri ! triangle) (cols + 1) i)) [0..<cols + 1])
            [0..<length tri] [])"
    unfolding find_unique_bars_def using assms
    by (intro for_e_pure find_unique_bars_inner) simp
  then show ?thesis
    using fold_nth_upt [of "\<lambda>row. fold (\<lambda>i. set_insert (bar_of row (cols + 1) i)) [0..<cols + 1]" tri "[]"]
    by simp
qed

lemma fold_rows_set_insert:
  "set (fold (\<lambda>row. fold (\<lambda>i. set_insert (f row i)) is) rows s)
      = (\<Union>row \<in> set rows. f row ` set is) \<union> set s \<and>
   (distinct s \<longrightarrow> distinct (fold (\<lambda>row. fold (\<lambda>i. set_insert (f row i)) is) rows s)) \<and>
   (sorted s \<longrightarrow> sorted (fold (\<lambda>row. fold (\<lambda>i. set_insert (f row i)) is) rows s))"
proof (induction rows arbitrary: s)
  case Nil
  then show ?case by simp
next
  case (Cons row rows)
  show ?case
    using Cons.IH [of "fold (\<lambda>i. set_insert (f row i)) is s"] fold_set_insert [of "f row" "is" s]
    by auto
qed

lemma bar_of_canonical: "snd (bar_of row n i) \<le> fst (bar_of row n i)"
  by (simp add: bar_of_def)

lemma unordered_bar_of: "unordered (bar_of row n i) = {row ! i, row ! ((i + 1) mod n)}"
  by (auto simp: bar_of_def unordered_def)

lemma unordered_inj:
  "snd e \<le> fst e \<Longrightarrow> snd e' \<le> fst e' \<Longrightarrow> unordered e = unordered e' \<Longrightarrow> e = e'"
  unfolding unordered_def
  by (cases e; cases e') (auto simp: doubleton_eq_iff)

lemma filter_key_once:
  "distinct (map f xs) \<Longrightarrow> x \<in> set xs \<Longrightarrow> length (filter (\<lambda>e. f e = f x) xs) = 1"
proof (induction xs)
  case Nil
  then show ?case by simp
next
  case (Cons y ys)
  show ?case
  proof (cases "y = x")
    case True
    then have "f x \<notin> f ` set ys" using Cons.prems(1) by simp
    then have "\<forall>e \<in> set ys. f e \<noteq> f x" by (blast intro: sym)
    then have "filter (\<lambda>e. f e = f x) ys = []" by (simp add: filter_empty_conv)
    then show ?thesis using True by simp
  next
    case False
    then have "x \<in> set ys" using Cons.prems(2) by simp
    moreover then have "f y \<noteq> f x" using Cons.prems(1) by (auto simp: image_iff)
    ultimately show ?thesis using Cons by simp
  qed
qed

lemma adjacent_small:
  assumes "i < n" "j < n" "i \<noteq> j" "n \<le> (3::nat)"
  shows "j = (i + 1) mod n \<or> i = (j + 1) mod n"
proof -
  have i: "i = 0 \<or> i = 1 \<or> i = 2" using assms(1,4) by linarith
  have j: "j = 0 \<or> j = 1 \<or> j = 2" using assms(2,4) by linarith
  have n: "n = 1 \<or> n = 2 \<or> n = 3" using assms(1,4) by linarith
  from n show ?thesis
  proof (elim disjE)
    assume "n = 1"
    then show ?thesis using assms by simp
  next
    assume "n = 2"
    then show ?thesis using i j assms(1,2,3) by auto
  next
    assume "n = 3"
    then show ?thesis using i j assms(1,2,3) by auto
  qed
qed

lemma find_unique_bars_result:
  assumes "\<forall>row \<in> set tri. length row = cols + 1"
  shows "\<exists>bars. find_unique_bars cols tri = Inr bars \<and> sorted bars \<and> distinct bars \<and>
           set bars = (\<Union>row \<in> set tri. (\<lambda>i. bar_of row (cols + 1) i) ` {0..<cols + 1})"
proof -
  define n where "n = cols + 1"
  define bars where "bars = fold (\<lambda>row. fold (\<lambda>i. set_insert (bar_of row n i)) [0..<n]) tri []"
  have "find_unique_bars cols tri = Inr bars"
    using find_unique_bars_pure [OF assms] by (simp only: bars_def n_def)
  moreover have "set bars = (\<Union>row \<in> set tri. (\<lambda>i. bar_of row n i) ` {0..<n}) \<and>
      distinct bars \<and> sorted bars"
    using fold_rows_set_insert [of "\<lambda>row i. bar_of row n i" "[0..<n]" tri "[]"]
    by (simp add: bars_def)
  ultimately show ?thesis unfolding n_def by blast
qed

lemma distinct_unordered:
  assumes "distinct bars" and "\<forall>e \<in> set bars. snd e \<le> fst e"
  shows "distinct (map unordered bars)"
  unfolding distinct_map
proof (intro conjI inj_onI)
  show "distinct bars" by (rule assms(1))
next
  fix e e' assume "e \<in> set bars" "e' \<in> set bars" "unordered e = unordered e'"
  then show "e = e'" using assms(2) unordered_inj by blast
qed

text \<open>
  Claim C2 as stated: every unordered pair of distinct vertices of a simplex row is in the
  output exactly once.  For a tetrahedron (\<open>D = 3\<close>) the loop pairs entry \<open>i\<close> with entry
  \<open>(i + 1) mod 4\<close> only: the vertices \<open>0\<close> and \<open>2\<close> of the row \<open>[0, 1, 2, 3]\<close> are in no row of
  the output together, in either order.
\<close>

lemma find_unique_bars_tetrahedron:
  "find_unique_bars 3 [[0, 1, 2, 3]] = Inr [(1, 0), (2, 1), (3, 0), (3, 2)]"
  by (simp add: find_unique_bars_def for_e_def at_e_def set_insert_def upt_rec)

theorem find_unique_bars_tetrahedron_counterexample:
  "find_unique_bars 3 [[0, 1, 2, 3]] = Inr [(1, 0), (2, 1), (3, 0), (3, 2)] \<and>
   (2, 0) \<notin> set [(1, 0), (2, 1), (3, 0), (3, 2) :: int \<times> int] \<and>
   (0, 2) \<notin> set [(1, 0), (2, 1), (3, 0), (3, 2) :: int \<times> int]"
  by (simp add: find_unique_bars_tetrahedron)

text \<open>
  Claim C2, amended: for every simplex array whose rows hold \<open>D + 1\<close> indices, the output has
  no two rows that are the same unordered pair, and for every simplex row every pair of
  cyclically adjacent entries (entry \<open>i\<close> and entry \<open>(i + 1) mod (D + 1)\<close>) is in the output
  exactly once as an unordered pair; for \<open>D \<le> 2\<close> these are all the pairs of entries of the
  row.
\<close>

theorem find_unique_bars_adjacent_pairs:
  assumes "\<forall>row \<in> set tri. length row = cols + 1"
  shows "\<exists>bars. find_unique_bars cols tri = Inr bars \<and>
      distinct (map unordered bars) \<and>
      (\<forall>row \<in> set tri. \<forall>i < cols + 1.
          length (filter (\<lambda>e. unordered e = {row ! i, row ! ((i + 1) mod (cols + 1))}) bars) = 1) \<and>
      (cols \<le> 2 \<longrightarrow>
        (\<forall>row \<in> set tri. \<forall>i < cols + 1. \<forall>j < cols + 1. i \<noteq> j \<longrightarrow>
          length (filter (\<lambda>e. unordered e = {row ! i, row ! j}) bars) = 1))"
proof -
  from find_unique_bars_result [OF assms] obtain bars where
    res: "find_unique_bars cols tri = Inr bars" and d: "distinct bars" and
    elems: "set bars = (\<Union>row \<in> set tri. (\<lambda>i. bar_of row (cols + 1) i) ` {0..<cols + 1})"
    by blast
  have canon: "\<forall>e \<in> set bars. snd e \<le> fst e"
    using elems bar_of_canonical by auto
  have du: "distinct (map unordered bars)"
    by (rule distinct_unordered [OF d canon])
  have once: "length (filter (\<lambda>e. unordered e = {row ! i, row ! ((i + 1) mod (cols + 1))}) bars) = 1"
    if "row \<in> set tri" "i < cols + 1" for row i
  proof -
    have "i \<in> {0..<cols + 1}" using that(2) by simp
    then have "bar_of row (cols + 1) i \<in> set bars" unfolding elems using that(1) by blast
    from filter_key_once [OF du this] show ?thesis by (simp add: unordered_bar_of)
  qed
  have all: "length (filter (\<lambda>e. unordered e = {row ! i, row ! j}) bars) = 1"
    if "cols \<le> 2" "row \<in> set tri" "i < cols + 1" "j < cols + 1" "i \<noteq> j" for row i j
  proof -
    from adjacent_small [OF that(3,4,5)] that(1)
    consider "j = (i + 1) mod (cols + 1)" | "i = (j + 1) mod (cols + 1)" by auto
    then show ?thesis
    proof cases
      case 1
      then show ?thesis using once [OF that(2,3)] by simp
    next
      case 2
      have "{row ! i, row ! j} = {row ! j, row ! ((j + 1) mod (cols + 1))}" using 2 by auto
      then show ?thesis using once [OF that(2,4)] by simp
    qed
  qed
  show ?thesis using res du once all by blast
qed

lemma bars_two_triangles:
  "find_unique_bars 2 [[0, 1, 2], [1, 2, 3]] = Inr [(1, 0), (2, 0), (2, 1), (3, 1), (3, 2)]"
  by (simp add: find_unique_bars_def for_e_def at_e_def set_insert_def upt_rec)

theorem find_unique_bars_adjacent_pairs_witness:
  "find_unique_bars 2 [[0, 1, 2], [1, 2, 3]] = Inr [(1, 0), (2, 0), (2, 1), (3, 1), (3, 2)] \<and>
   distinct (map unordered [(1, 0), (2, 0), (2, 1), (3, 1), (3, 2)]) \<and>
   length (filter (\<lambda>e. unordered e = {1, 2}) [(1, 0), (2, 0), (2, 1), (3, 1), (3, 2)]) = 1 \<and>
   length (filter (\<lambda>e. unordered e = {0, 2}) [(1, 0), (2, 0), (2, 1), (3, 1), (3, 2)]) = 1"
proof -
  let ?T = "[[0, 1, 2], [1, 2, 3 :: int]]"
  let ?L = "[(1, 0), (2, 0), (2, 1), (3, 1), (3, 2)] :: (int \<times> int) list"
  have h: "\<forall>row \<in> set ?T. length row = 2 + 1" by simp
  from find_unique_bars_adjacent_pairs [OF h] obtain bars where
    b: "find_unique_bars 2 ?T = Inr bars" and du: "distinct (map unordered bars)"
    and adj: "\<forall>row \<in> set ?T. \<forall>i < 2 + 1.
          length (filter (\<lambda>e. unordered e = {row ! i, row ! ((i + 1) mod (2 + 1))}) bars) = 1"
    and al: "2 \<le> (2::nat) \<longrightarrow> (\<forall>row \<in> set ?T. \<forall>i < 2 + 1. \<forall>j < 2 + 1. i \<noteq> j \<longrightarrow>
          length (filter (\<lambda>e. unordered e = {row ! i, row ! j}) bars) = 1)"
    by blast
  have bars: "bars = ?L" using b by (simp add: bars_two_triangles)
  have "[0, 1, 2] \<in> set ?T" by simp
  from adj [THEN bspec, OF this, THEN spec, of 1]
  have a1: "length (filter (\<lambda>e. unordered e = {1, 2}) bars) = 1" by simp
  from al have "\<forall>row \<in> set ?T. \<forall>i < 2 + 1. \<forall>j < 2 + 1. i \<noteq> j \<longrightarrow>
          length (filter (\<lambda>e. unordered e = {row ! i, row ! j}) bars) = 1" by simp
  from this [THEN bspec, OF \<open>[0, 1, 2] \<in> set ?T\<close>, THEN spec, of 0, THEN mp, THEN spec, of 2]
  have a2: "length (filter (\<lambda>e. unordered e = {0, 2}) bars) = 1" by simp
  show ?thesis using du a1 a2 unfolding bars by (simp only: bars_two_triangles simp_thms)
qed

section \<open>Projection onto the boundary\<close>

lemma add_d_zero_right: "add_d x (Fin 0) = x"
  by (cases x) simp_all

lemma fold_update_upt:
  "n \<le> length xs \<Longrightarrow>
   fold (\<lambda>i xs. xs[i := g i (xs ! i)]) [0..<n] xs = map (\<lambda>i. g i (xs ! i)) [0..<n] @ drop n xs"
proof (induction n)
  case 0
  then show ?case by simp
next
  case (Suc n)
  then have n: "n < length xs" by simp
  have "fold (\<lambda>i xs. xs[i := g i (xs ! i)]) [0..<Suc n] xs
      = (map (\<lambda>i. g i (xs ! i)) [0..<n] @ drop n xs)[n := g n ((map (\<lambda>i. g i (xs ! i)) [0..<n] @ drop n xs) ! n)]"
    using Suc by simp
  also have "\<dots> = map (\<lambda>i. g i (xs ! i)) [0..<n] @ (drop n xs)[0 := g n (xs ! n)]"
    using n by (simp add: list_update_append nth_append)
  also have "(drop n xs)[0 := g n (xs ! n)] = g n (xs ! n) # drop (Suc n) xs"
    using n by (simp add: Cons_nth_drop_Suc [symmetric])
  finally show ?case by simp
qed

lemma fold_update_all:
  "fold (\<lambda>i xs. xs[i := g i (xs ! i)]) [0..<length xs] xs = map (\<lambda>i. g i (xs ! i)) [0..<length xs]"
  using fold_update_upt [of "length xs" xs g] by simp

lemma row_add_deltaX:
  assumes "k < length p"
  shows "row_add p (deltaX (length p) h0 k)
         = p[k := add_d (p ! k) (mul_d (sqrt_d (Fin machine_epsilon)) h0)]"
proof (rule nth_equalityI)
  show "length (row_add p (deltaX (length p) h0 k))
        = length (p[k := add_d (p ! k) (mul_d (sqrt_d (Fin machine_epsilon)) h0)])"
    by (simp add: row_add_def deltaX_def)
next
  fix j assume "j < length (row_add p (deltaX (length p) h0 k))"
  then have j: "j < length p" by (simp add: row_add_def deltaX_def)
  show "row_add p (deltaX (length p) h0 k) ! j
        = p[k := add_d (p ! k) (mul_d (sqrt_d (Fin machine_epsilon)) h0)] ! j"
    using j assms by (cases "j = k") (simp_all add: row_add_def deltaX_def add_d_zero_right)
qed

lemma gradient_row_fd:
  "gradient_row df h0 p (df p) = map (fd_gradient df h0 p) [0..<length p]"
  by (simp add: gradient_row_def fd_gradient_def row_add_deltaX Let_def)

lemma project_row_newton:
  "project_row p (df p) (gradient_row df h0 p (df p)) = newton_projection df h0 p"
proof (rule nth_equalityI)
  show "length (project_row p (df p) (gradient_row df h0 p (df p))) = length (newton_projection df h0 p)"
    by (simp add: project_row_def row_sub_def gradient_row_def newton_projection_def)
next
  fix k assume "k < length (project_row p (df p) (gradient_row df h0 p (df p)))"
  then have k: "k < length p"
    by (simp add: project_row_def row_sub_def gradient_row_def)
  show "project_row p (df p) (gradient_row df h0 p (df p)) ! k = newton_projection df h0 p ! k"
    using k by (simp add: project_row_def row_sub_def gradient_row_fd newton_projection_def comp_def)
qed

lemma project_points_rows:
  "project_points_to_function df h0 pts
     = map (\<lambda>p. if gt_d (df p) (Fin 0) then newton_projection df h0 p else p) pts"
proof -
  let ?g = "\<lambda>i p. if gt_d (df (pts ! i)) (Fin 0)
                   then project_row p (df (pts ! i)) (gradient_row df h0 p (df (pts ! i))) else p"
  have body: "(\<lambda>point points.
                   if map (\<lambda>d. gt_d d (Fin 0)) (map df pts) ! point then
                     points[point := project_row (points ! point) (map df pts ! point)
                        (gradient_row df h0 (points ! point) (map df pts ! point))]
                   else points) i xs = xs[i := ?g i (xs ! i)]" if "i < length pts" for i xs
    using that by simp
  have "fold (\<lambda>point points.
                   if map (\<lambda>d. gt_d d (Fin 0)) (map df pts) ! point then
                     points[point := project_row (points ! point) (map df pts ! point)
                        (gradient_row df h0 (points ! point) (map df pts ! point))]
                   else points) [0..<length pts] pts
        = fold (\<lambda>i xs. xs[i := ?g i (xs ! i)]) [0..<length pts] pts"
    by (rule fold_cong) (simp_all add: fun_eq_iff)
  also have "\<dots> = map (\<lambda>i. ?g i (pts ! i)) [0..<length pts]"
    by (rule fold_update_all)
  also have "\<dots> = map (\<lambda>i. (\<lambda>p. if gt_d (df p) (Fin 0) then newton_projection df h0 p else p) (pts ! i)) [0..<length pts]"
    by (simp add: project_row_newton)
  also have "\<dots> = map (\<lambda>p. if gt_d (df p) (Fin 0) then newton_projection df h0 p else p) pts"
    by (rule nth_equalityI) simp_all
  finally have loop: "fold (\<lambda>point points.
                   if map (\<lambda>d. gt_d d (Fin 0)) (map df pts) ! point then
                     points[point := project_row (points ! point) (map df pts ! point)
                        (gradient_row df h0 (points ! point) (map df pts ! point))]
                   else points) [0..<length pts] pts
        = map (\<lambda>p. if gt_d (df p) (Fin 0) then newton_projection df h0 p else p) pts" .
  show ?thesis
  proof (cases "list_ex (\<lambda>b. b) (map (\<lambda>d. gt_d d (Fin 0)) (map df pts))")
    case True
    then show ?thesis unfolding project_points_to_function_def Let_def using loop by simp
  next
    case False
    then have "\<forall>p \<in> set pts. \<not> gt_d (df p) (Fin 0)" by (simp add: list_ex_iff)
    then have "map (\<lambda>p. if gt_d (df p) (Fin 0) then newton_projection df h0 p else p) pts = pts"
      by (simp add: map_idI)
    then show ?thesis unfolding project_points_to_function_def Let_def using False by simp
  qed
qed

lemma le_d_not_gt: "le_d d (Fin 0) \<Longrightarrow> \<not> gt_d d (Fin 0)"
  by (simp add: le_d_def gt_d_def)

text \<open>
  Claim C3: the projector keeps the number of points; a point whose distance value is at
  most zero is left as it is, and a point whose distance value \<open>d\<close> is positive is replaced
  by \<open>p - d * grad / |grad|^2\<close> with the forward difference gradient of step
  \<open>sqrt(machineEpsilon) * h0\<close>, computed from the point as it was before the call: one step
  for each point, none repeated.
\<close>

theorem project_points_to_function_newton_step:
  "length (project_points_to_function df h0 pts) = length pts \<and>
   (\<forall>i < length pts.
      (le_d (df (pts ! i)) (Fin 0) \<longrightarrow> project_points_to_function df h0 pts ! i = pts ! i) \<and>
      (gt_d (df (pts ! i)) (Fin 0) \<longrightarrow>
         project_points_to_function df h0 pts ! i = newton_projection df h0 (pts ! i)))"
  by (simp add: project_points_rows le_d_not_gt)

lemma sqrt_machine_epsilon: "sqrt machine_epsilon = 1 / 2 ^ 26"
  by (rule real_sqrt_unique) (simp_all add: machine_epsilon_def power2_eq_square)

lemma machine_epsilon_nonneg: "0 \<le> machine_epsilon"
  by (simp add: machine_epsilon_def)

lemma sqrt_d_machine_epsilon: "sqrt_d (Fin machine_epsilon) = Fin (1 / 2 ^ 26)"
  using machine_epsilon_nonneg by (simp only: sqrt_d.simps if_True sqrt_machine_epsilon)

lemma newton_projection_half_plane: "newton_projection (\<lambda>p. sub_d (p ! 0) (Fin 1)) (Fin 1) [Fin 2, Fin 5] = [Fin 1, Fin 5]"
  by (simp add: newton_projection_def fd_gradient_def machine_epsilon_nonneg sqrt_machine_epsilon Let_def upt_rec sub_d_def sum_d_def square_def)

theorem project_points_to_function_newton_step_witness:
  "project_points_to_function (\<lambda>p. sub_d (p ! 0) (Fin 1)) (Fin 1) [[Fin 2, Fin 5], [Fin 0, Fin 3]]
     = [[Fin 1, Fin 5], [Fin 0, Fin 3]]"
proof -
  let ?df = "\<lambda>p. sub_d (p ! 0) (Fin 1)"
  let ?pts = "[[Fin 2, Fin 5], [Fin 0, Fin 3]]"
  have out: "gt_d (?df (?pts ! 0)) (Fin 0)" by (simp add: gt_d_def sub_d_def)
  have ins: "le_d (?df (?pts ! 1)) (Fin 0)" by (simp add: le_d_def sub_d_def)
  from project_points_to_function_newton_step [of ?df "Fin 1" ?pts]
  have len: "length (project_points_to_function ?df (Fin 1) ?pts) = 2"
    and r0: "project_points_to_function ?df (Fin 1) ?pts ! 0 = newton_projection ?df (Fin 1) (?pts ! 0)"
    and r1: "project_points_to_function ?df (Fin 1) ?pts ! 1 = ?pts ! 1"
    using out ins by auto
  show ?thesis
  proof (rule nth_equalityI)
    show "length (project_points_to_function ?df (Fin 1) ?pts) = length [[Fin 1, Fin 5], [Fin 0, Fin 3]]"
      using len by simp
  next
    fix i assume "i < length (project_points_to_function ?df (Fin 1) ?pts)"
    then have "i = 0 \<or> i = 1" using len by auto
    then show "project_points_to_function ?df (Fin 1) ?pts ! i = [[Fin 1, Fin 5], [Fin 0, Fin 3]] ! i"
      using r0 r1 newton_projection_half_plane by auto
  qed
qed

section \<open>The run on the line, evaluated\<close>

lemma example_fields [simp]:
  "cst example_run = example_constants"
  "delaunay example_run = (\<lambda>pts. [[0, 1]])"
  "distanceFunction example_run = (\<lambda>p. sub_d (p ! 0) (Fin 1))"
  "initialPointDistance example_run = Fin 1"
  "elementSizeFunction example_run = (\<lambda>p. Fin 1)"
  "dimension example_run = 1"
  "fixedPoints_rows example_run = 1"
  "maxSteps example_constants = 3"
  "retriangulationThreshold example_constants = Fin (1 / 10)"
  "geometryEvaluationThreshold example_constants = Fin (1 / 1000)"
  "pointsMovementThreshold example_constants = Fin (1 / 1000)"
  "deltaT example_constants = Fin (1 / 10)"
  by (simp_all add: example_run_def example_constants_def)

lemma sub_d_Fin [simp]: "sub_d (Fin a) (Fin b) = Fin (a - b)"
  by (simp add: sub_d_def)

lemma square_Fin [simp]: "square (Fin a) = Fin (a * a)"
  by (simp add: square_def)

lemma sum_d_simps [simp]: "sum_d [] = Fin 0" "sum_d (x # xs) = add_d x (sum_d xs)"
  by (simp_all add: sum_d_def)


lemma example_forceVector:
  "forceVector_of example_run [[Fin 0], [Fin 1]] [(1, 0)] = Inr [[Fin (2 / 5)]]"
  by (simp add: forceVector_of_def selectIndexedArrayElements_def at_e_def row_sub_def row_add_def
      edgeLength_of_def desiredEdgeLength_of_def force_magnitude_def bias_def max_d_def Let_def)






section \<open>The first iteration\<close>










section \<open>The main loop\<close>








section \<open>Retriangulation\<close>

lemma add_d_commute: "add_d a b = add_d b a"
  by (cases a; cases b) simp_all

lemma add_d_assoc: "add_d (add_d a b) c = add_d a (add_d b c)"
  by (cases a; cases b; cases c) simp_all

lemma sum_d_snoc: "sum_d (xs @ [x]) = add_d (sum_d xs) x"
proof (induction xs)
  case Nil
  show ?case by (cases x) simp_all
next
  case (Cons y ys)
  then show ?case by (simp add: add_d_assoc)
qed

lemma div_d_add:
  "0 < n \<Longrightarrow> div_d (add_d a b) (Fin n) = add_d (div_d a (Fin n)) (div_d b (Fin n))"
  by (cases a; cases b) (simp_all add: add_divide_distrib)

lemma sum_d_div:
  "0 < n \<Longrightarrow> sum_d (map (\<lambda>x. div_d x (Fin n)) xs) = div_d (sum_d xs) (Fin n)"
  by (induction xs) (simp_all add: div_d_add)

lemma mapM_e_at:
  "\<forall>i \<in> set idxs. 0 \<le> i \<and> nat i < length xs \<Longrightarrow>
     mapM_e (at_e xs) idxs = Inr (map (\<lambda>i. xs ! nat i) idxs)"
  by (induction idxs) (simp_all add: at_e_def)

lemma map2_same: "map2 f (map a xs) (map b xs) = map (\<lambda>x. f (a x) (b x)) xs"
  by (induction xs) simp_all

lemma masked_filter: "selectMaskedArrayElements xs (map f xs) = filter f xs"
  unfolding selectMaskedArrayElements_def by (induction xs) simp_all

lemma partial_mean_step:
  assumes "length p = D"
  shows "row_add (partial_mean pts D n j t) (map (\<lambda>x. div_d x (Fin (real n))) p)
         = map (\<lambda>k. add_d (sum_d (map (\<lambda>i. div_d (pts ! nat (t ! i) ! k) (Fin (real n))) [0..<j]))
                          (div_d (p ! k) (Fin (real n)))) [0..<D]"
  using assms by (intro nth_equalityI) (simp_all add: row_add_def partial_mean_def)

lemma partial_mean_Suc:
  assumes "length (pts ! nat (t ! j)) = D"
  shows "row_add (partial_mean pts D n j t) (map (\<lambda>x. div_d x (Fin (real n))) (pts ! nat (t ! j)))
         = partial_mean pts D n (Suc j) t"
  unfolding partial_mean_step [OF assms]
  by (simp add: partial_mean_def sum_d_snoc)

lemma circumcenter_fold:
  assumes rows: "\<forall>t \<in> set tri. length t = n"
    and valid: "\<forall>t \<in> set tri. \<forall>v \<in> set t. 0 \<le> v \<and> nat v < length pts"
    and cols: "\<forall>p \<in> set pts. length p = D"
    and j: "j \<le> n"
  shows "fold (\<lambda>point c. map2 row_add c
                 (map (map (\<lambda>x. div_d x (Fin (real n)))) (map (\<lambda>t. pts ! nat (t ! point)) tri)))
           [0..<j] (replicate (length tri) (replicate D (Fin 0)))
         = map (partial_mean pts D n j) tri"
  using j
proof (induction j)
  case 0
  show ?case by (simp add: partial_mean_def map_replicate_const)
next
  case (Suc j)
  have "map2 row_add (map (partial_mean pts D n j) tri)
           (map (map (\<lambda>x. div_d x (Fin (real n)))) (map (\<lambda>t. pts ! nat (t ! j)) tri))
        = map (\<lambda>t. row_add (partial_mean pts D n j t)
                       (map (\<lambda>x. div_d x (Fin (real n))) (pts ! nat (t ! j)))) tri"
    by (simp add: map2_same comp_def)
  also have "\<dots> = map (partial_mean pts D n (Suc j)) tri"
  proof (rule map_cong [OF refl])
    fix t assume t: "t \<in> set tri"
    then have "t ! j \<in> set t" using rows Suc.prems by simp
    then have "nat (t ! j) < length pts" using valid t by blast
    then have "length (pts ! nat (t ! j)) = D" using cols by simp
    then show "row_add (partial_mean pts D n j t)
                       (map (\<lambda>x. div_d x (Fin (real n))) (pts ! nat (t ! j)))
               = partial_mean pts D n (Suc j) t"
      by (rule partial_mean_Suc)
  qed
  finally show ?case using Suc by simp
qed

lemma partial_mean_centroid:
  assumes "length t = n" "0 < n"
  shows "partial_mean pts D n n t = centroid pts D t"
proof -
  have pos: "0 < real n" using assms(2) by simp
  have "sum_d (map (\<lambda>i. div_d (pts ! nat (t ! i) ! k) (Fin (real n))) [0..<n])
        = div_d (sum_d (map (\<lambda>v. pts ! nat v ! k) t)) (Fin (real n))" for k
  proof -
    have "map (\<lambda>i. div_d (pts ! nat (t ! i) ! k) (Fin (real n))) [0..<n]
          = map (\<lambda>x. div_d x (Fin (real n))) (map (\<lambda>v. pts ! nat v ! k) t)"
      using assms(1) by (intro nth_equalityI) simp_all
    then show ?thesis by (simp only: sum_d_div [OF pos])
  qed
  then show ?thesis
    using assms(1) by (simp add: partial_mean_def centroid_def)
qed

lemma circumcenter_centroids:
  assumes rows: "\<forall>t \<in> set tri. length t = D + 1"
    and valid: "\<forall>t \<in> set tri. \<forall>v \<in> set t. 0 \<le> v \<and> nat v < length pts"
    and cols: "\<forall>p \<in> set pts. length p = D"
  shows "circumcenter pts tri D = Inr (map (centroid pts D) tri)"
proof (cases tri)
  case Nil
  then show ?thesis by (simp add: circumcenter_def ncols_def for_e_def)
next
  case (Cons t0 ts)
  then have n: "ncols tri = D + 1" using rows by (simp add: ncols_def)
  have sel: "selectIndexedArrayElements pts (map (\<lambda>r. r ! point) tri)
             = Inr (map (\<lambda>t. pts ! nat (t ! point)) tri)" if "point < D + 1" for point
  proof -
    have "\<forall>i \<in> set (map (\<lambda>r. r ! point) tri). 0 \<le> i \<and> nat i < length pts"
      using rows valid that by auto
    from mapM_e_at [OF this] show ?thesis
      by (simp add: selectIndexedArrayElements_def comp_def)
  qed
  have "circumcenter pts tri D
        = Inr (fold (\<lambda>point c. map2 row_add c
                 (map (map (\<lambda>x. div_d x (Fin (real (D + 1))))) (map (\<lambda>t. pts ! nat (t ! point)) tri)))
           [0..<D + 1] (replicate (length tri) (replicate D (Fin 0))))"
    unfolding circumcenter_def n by (intro for_e_pure) (simp add: sel)
  also have "\<dots> = Inr (map (partial_mean pts D (D + 1) (D + 1)) tri)"
    using circumcenter_fold [OF rows valid cols, of "D + 1"] by simp
  also have "map (partial_mean pts D (D + 1) (D + 1)) tri = map (centroid pts D) tri"
    using rows by (intro map_cong refl partial_mean_centroid) simp_all
  finally show ?thesis .
qed

lemma findUniqueEdges_returns:
  assumes "\<forall>t \<in> set tri. length t = D + 1"
  shows "\<exists>edges. findUniqueEdges tri = Inr edges"
proof (cases tri)
  case Nil
  then show ?thesis by (simp add: findUniqueEdges_def find_unique_bars_def for_e_def)
next
  case (Cons t ts)
  then have "ncols tri - 1 = D" using assms by (simp add: ncols_def)
  then show ?thesis using find_unique_bars_pure [OF assms] by (simp add: findUniqueEdges_def)
qed

text \<open>
  Claim C4: when the test of the retriangulation branch holds, and the triangulator
  returns simplices of \<open>D + 1\<close> indices of points for points of \<open>D\<close> coordinates, the new
  simplex array holds, in their order, exactly the simplices of the triangulator whose
  centroid \<open>c\<close> has \<open>distanceFunction(c) < -geometryEvaluationThreshold * h0\<close>; every other
  simplex is dropped.  The edge array is what \<open>findUniqueEdges\<close> returns for the simplices
  that are kept, and the buffer of the test becomes the current points.
\<close>

theorem retriangulation_keeps_inside_simplices:
  assumes due: "retriangulation_due r s = Inr True"
    and simplices: "\<forall>simplex \<in> set (delaunay r (points s)).
           length simplex = dimension r + 1 \<and> (\<forall>v \<in> set simplex. 0 \<le> v \<and> nat v < length (points s))"
    and coordinates: "\<forall>p \<in> set (points s). length p = dimension r"
  shows "\<exists>edges.
     findUniqueEdges
       (filter (\<lambda>simplex. lt_d (distanceFunction r (centroid (points s) (dimension r) simplex))
                               (mul_d (neg_d (geometryEvaluationThreshold (cst r)))
                                      (initialPointDistance r)))
               (delaunay r (points s))) = Inr edges \<and>
     retriangulation_phase r s =
       Inr (s\<lparr>triangulation :=
                 filter (\<lambda>simplex. lt_d (distanceFunction r (centroid (points s) (dimension r) simplex))
                                         (mul_d (neg_d (geometryEvaluationThreshold (cst r)))
                                                (initialPointDistance r)))
                        (delaunay r (points s)),
               edgeIndices := Some edges,
               retriangulationCriterionBuffer := points s\<rparr>)"
proof -
  let ?keep = "\<lambda>simplex. lt_d (distanceFunction r (centroid (points s) (dimension r) simplex))
                               (mul_d (neg_d (geometryEvaluationThreshold (cst r)))
                                      (initialPointDistance r))"
  let ?tri = "delaunay r (points s)"
  have c: "circumcenter (points s) ?tri (dimension r) = Inr (map (centroid (points s) (dimension r)) ?tri)"
    using simplices coordinates by (intro circumcenter_centroids) auto
  have m: "selectMaskedArrayElements ?tri
             (map (\<lambda>d. lt_d d (mul_d (neg_d (geometryEvaluationThreshold (cst r))) (initialPointDistance r)))
                (map (distanceFunction r) (map (centroid (points s) (dimension r)) ?tri)))
           = filter ?keep ?tri"
    using masked_filter [of ?tri ?keep] by (simp add: comp_def)
  have "\<forall>t \<in> set (filter ?keep ?tri). length t = dimension r + 1" using simplices by simp
  from findUniqueEdges_returns [OF this] obtain edges where e: "findUniqueEdges (filter ?keep ?tri) = Inr edges" ..
  have "retriangulate r s = Inr (s\<lparr>triangulation := filter ?keep ?tri, edgeIndices := Some edges,
               retriangulationCriterionBuffer := points s\<rparr>)"
    unfolding retriangulate_def Let_def c by (simp only: sum.case m e)
  then show ?thesis using due e by (simp add: retriangulation_phase_def)
qed

lemma example_retriangulation_due:
  "retriangulation_due example_run (initial_state [[Fin 0], [Fin 1]] [[0, 1]]) = Inr True"
  by (simp add: retriangulation_due_def initial_state_def max_displacement_def row_sub_def
      sub_d_def square_def signed_inf_def gt_d_def)

theorem retriangulation_keeps_inside_simplices_witness:
  "\<exists>edges. findUniqueEdges [[0, 1]] = Inr edges \<and>
     retriangulation_phase example_run (initial_state [[Fin 0], [Fin 1]] [[0, 1]]) =
       Inr \<lparr>points = [[Fin 0], [Fin 1]], triangulation = [[0, 1]], edgeIndices = Some edges,
            retriangulationCriterionBuffer = [[Fin 0], [Fin 1]],
            stopCriterionBuffer = [[Fin 0], [Fin 0]]\<rparr>"
  using retriangulation_keeps_inside_simplices
    [of example_run "initial_state [[Fin 0], [Fin 1]] [[0, 1]]", OF example_retriangulation_due]
  by (simp add: initial_state_def centroid_def)

section \<open>The force law\<close>

lemma pow_nat_Fin: "pow_nat (Fin a) n = Fin (a ^ n)"
  by (induction n) simp_all

lemma wrap_minus_one:
  fixes D n :: nat
  assumes "1 \<le> D" "D < n"
  shows "(D + n - 1) mod n = D - 1"
proof -
  have "D + n - 1 = (D - 1) + n" using assms(1) by simp
  then have "(D + n - 1) mod n = (D - 1) mod n" by (simp only: mod_add_self2)
  then show ?thesis using assms(2) by simp
qed

lemma bias_value:
  assumes "1 \<le> D" "D < 2 ^ 32"
  shows "bias D = Fin (1 + (4 / 10) / 2 ^ (D - 1))"
proof -
  have "(D + 2 ^ 32 - 1) mod 2 ^ 32 = D - 1"
    using assms by (rule wrap_minus_one)
  then show ?thesis by (simp add: bias_def pow_nat_Fin)
qed

lemma sqrt_d_nonneg: "sqrt_d x = NaN \<or> le_d (Fin 0) (sqrt_d x)"
  by (cases x) (simp_all add: le_d_def)

lemma spring_force_zero:
  assumes "le_d L0 len" and "le_d (Fin 0) len" and "div_d (sub_d L0 len) len \<noteq> NaN"
  shows "spring_force L0 len = Fin 0"
proof (cases len)
  case (Fin l)
  then have l: "0 \<le> l" using assms(2) by (simp add: le_d_def)
  show ?thesis
  proof (cases L0)
    case (Fin m)
    then have m: "m \<le> l" using assms(1) \<open>len = Fin l\<close> by (simp add: le_d_def)
    show ?thesis
    proof (cases "l = 0")
      case True
      then have "m < 0" using m assms(3) Fin \<open>len = Fin l\<close> by (cases "m = 0") (simp_all add: sub_d_def)
      then show ?thesis using True Fin \<open>len = Fin l\<close> by (simp add: spring_force_def sub_d_def max_d_def)
    next
      case False
      then have "(m - l) / l \<le> 0" using l m by (simp add: divide_nonpos_pos)
      then show ?thesis using False Fin \<open>len = Fin l\<close>
        by (auto simp: spring_force_def max_d_def)
    qed
  next
    case PInf
    then show ?thesis using assms(1) Fin by (simp add: le_d_def)
  next
    case NInf
    then show ?thesis using l Fin by (simp add: spring_force_def sub_d_def max_d_def)
  next
    case NaN
    then show ?thesis using assms(1) by (simp add: le_d_def)
  qed
next
  case PInf
  then show ?thesis using assms(3) by (cases L0) (simp_all add: sub_d_def)
next
  case NInf
  then show ?thesis using assms(2) by (simp add: le_d_def)
next
  case NaN
  then show ?thesis using assms(2) by (simp add: le_d_def)
qed

lemma select_rows:
  "\<forall>i \<in> set idxs. 0 \<le> i \<and> nat i < length pts \<Longrightarrow>
     selectIndexedArrayElements pts idxs = Inr (map (\<lambda>i. pts ! nat i) idxs)"
  unfolding selectIndexedArrayElements_def by (rule mapM_e_at)

lemma forceVector_of_rows:
  assumes D: "1 \<le> dimension r" "dimension r < 2 ^ 32"
    and valid: "\<forall>e \<in> set edges. 0 \<le> fst e \<and> nat (fst e) < length pts \<and>
                                  0 \<le> snd e \<and> nat (snd e) < length pts"
  shows "forceVector_of r pts edges =
     Inr (map (\<lambda>e. map (\<lambda>x. mul_d x
                  (spring_force
                     (desired_length (dimension r) (elementSizeFunction r (edge_midpoint pts e))
                        (map (edge_length pts) edges)
                        (map (\<lambda>e. elementSizeFunction r (edge_midpoint pts e)) edges))
                     (edge_length pts e)))
               (edge_vector pts e)) edges)"
proof -
  have p0: "selectIndexedArrayElements pts (map fst edges) = Inr (map (\<lambda>e. pts ! nat (fst e)) edges)"
    using valid select_rows [of "map fst edges" pts] by (simp add: comp_def)
  have p1: "selectIndexedArrayElements pts (map snd edges) = Inr (map (\<lambda>e. pts ! nat (snd e)) edges)"
    using valid select_rows [of "map snd edges" pts] by (simp add: comp_def)
  have vec: "map2 row_sub (map (\<lambda>e. pts ! nat (fst e)) edges) (map (\<lambda>e. pts ! nat (snd e)) edges)
             = map (edge_vector pts) edges"
    by (simp add: map2_same edge_vector_def)
  have len: "edgeLength_of (map (edge_vector pts) edges) = map (edge_length pts) edges"
    by (simp add: edgeLength_of_def edge_length_def)
  have size: "map (elementSizeFunction r) (map (map (mul_d (Fin (1 / 2))))
                (map2 row_add (map (\<lambda>e. pts ! nat (fst e)) edges) (map (\<lambda>e. pts ! nat (snd e)) edges)))
              = map (\<lambda>e. elementSizeFunction r (edge_midpoint pts e)) edges"
    by (simp add: map2_same edge_midpoint_def comp_def)
  have L0: "desiredEdgeLength_of (dimension r)
               (map (\<lambda>e. elementSizeFunction r (edge_midpoint pts e)) edges)
               (map (edge_length pts) edges)
            = map (\<lambda>e. desired_length (dimension r) (elementSizeFunction r (edge_midpoint pts e))
                        (map (edge_length pts) edges)
                        (map (\<lambda>e. elementSizeFunction r (edge_midpoint pts e)) edges)) edges"
    unfolding desiredEdgeLength_of_def desired_length_def density_scale_def bias_value [OF D]
    by (simp add: comp_def)
  have mag: "force_magnitude (map f edges) (map g edges) = map (\<lambda>e. spring_force (f e) (g e)) edges"
    for f g
    by (simp add: force_magnitude_def map2_same spring_force_def)
  show ?thesis
    unfolding forceVector_of_def p0 p1 sum.case Let_def vec len size L0 mag
    by (simp add: map2_same)
qed

text \<open>
  Claim C5 as stated: every edge whose length is at least its desired length has force
  magnitude exactly zero.  Two points at the same place joined by an edge: the length is
  \<open>0\<close>, the scale and with it the desired length are \<open>0\<close>, so the length is at least the
  desired length; the quotient is \<open>0 / 0\<close>, and the force magnitude and the force vector
  are \<open>NaN\<close>, not zero.
\<close>

lemma zero_length_edge_length: "edge_length [[Fin 0], [Fin 0]] (1, 0) = Fin 0"
  by (simp add: edge_length_def edge_vector_def row_sub_def)

lemma zero_length_edge_desired: "desired_length 1 (Fin 1) [Fin 0] [Fin 1] = Fin 0"
  by (simp add: desired_length_def density_scale_def)

lemma zero_length_edge_force: "spring_force (Fin 0) (Fin 0) = NaN"
  by (simp add: spring_force_def max_d_def)

lemma zero_length_edge_forceVector:
  "forceVector_of example_run [[Fin 0], [Fin 0]] [(1, 0)] = Inr [[NaN]]"
  by (simp add: forceVector_of_def selectIndexedArrayElements_def
      at_e_def row_sub_def row_add_def edgeLength_of_def desiredEdgeLength_of_def force_magnitude_def
      bias_def max_d_def Let_def)

theorem zero_length_edge_counterexample:
  "edge_length [[Fin 0], [Fin 0]] (1, 0) = Fin 0 \<and>
   desired_length 1 (Fin 1) [Fin 0] [Fin 1] = Fin 0 \<and>
   le_d (Fin 0) (Fin 0) \<and>
   spring_force (Fin 0) (Fin 0) = NaN \<and>
   forceVector_of example_run [[Fin 0], [Fin 0]] [(1, 0)] = Inr [[NaN]]"
  by (intro conjI zero_length_edge_length zero_length_edge_desired zero_length_edge_force
      zero_length_edge_forceVector) (simp add: le_d_def)

text \<open>
  Claim C5, amended: for a dimension \<open>D\<close> of at least \<open>1\<close> (and below \<open>2^32\<close>, the range of
  \<^verbatim>\<open>unsigned\<close>) and edges that index points, the force computation returns one row for
  each edge: the vector of the edge times \<open>max((L0 - length) / length, 0)\<close>, where
  \<open>L0 = sizeField(midpoint) * (1 + 0.4 / 2^(D-1)) * (sum(length^D) / sum(L0_raw^D))^(1/D)\<close>.
  An edge whose length is at least a desired length \<open>L0\<close> has force magnitude exactly zero
  whenever the quotient \<open>(L0 - length) / length\<close> is a number, that is, except for \<open>0 / 0\<close>
  and for an infinite length.
\<close>

theorem force_is_repulsive_spring:
  assumes D: "1 \<le> dimension r" "dimension r < 2 ^ 32"
    and valid: "\<forall>e \<in> set edges. 0 \<le> fst e \<and> nat (fst e) < length pts \<and>
                                  0 \<le> snd e \<and> nat (snd e) < length pts"
  shows "\<exists>forceVector. forceVector_of r pts edges = Inr forceVector \<and>
     length forceVector = length edges \<and>
     (\<forall>k < length edges.
        forceVector ! k =
          map (\<lambda>x. mul_d x
                 (spring_force
                    (desired_length (dimension r) (elementSizeFunction r (edge_midpoint pts (edges ! k)))
                       (map (edge_length pts) edges)
                       (map (\<lambda>e. elementSizeFunction r (edge_midpoint pts e)) edges))
                    (edge_length pts (edges ! k))))
              (edge_vector pts (edges ! k))) \<and>
     (\<forall>L0 e. le_d L0 (edge_length pts e) \<and>
             div_d (sub_d L0 (edge_length pts e)) (edge_length pts e) \<noteq> NaN \<longrightarrow>
             spring_force L0 (edge_length pts e) = Fin 0)"
proof -
  have zero: "spring_force L0 (edge_length pts e) = Fin 0"
    if "le_d L0 (edge_length pts e)"
      and "div_d (sub_d L0 (edge_length pts e)) (edge_length pts e) \<noteq> NaN" for L0 e
  proof -
    have "edge_length pts e \<noteq> NaN" using that(1) by (simp add: le_d_def)
    then have "le_d (Fin 0) (edge_length pts e)"
      using sqrt_d_nonneg [of "sum_d (map square (edge_vector pts e))"]
      by (simp add: edge_length_def)
    from spring_force_zero [OF that(1) this that(2)] show ?thesis .
  qed
  show ?thesis
    unfolding forceVector_of_rows [OF assms] using zero by simp
qed

lemma example_edge_length: "edge_length [[Fin 0], [Fin 1]] (1, 0) = Fin 1"
  by (simp add: edge_length_def edge_vector_def row_sub_def)

theorem force_is_repulsive_spring_witness:
  "forceVector_of example_run [[Fin 0], [Fin 1]] [(1, 0)] = Inr [[Fin (2 / 5)]] \<and>
   le_d (Fin (1 / 2)) (edge_length [[Fin 0], [Fin 1]] (1, 0)) \<and>
   spring_force (Fin (1 / 2)) (edge_length [[Fin 0], [Fin 1]] (1, 0)) = Fin 0"
proof -
  have D: "1 \<le> dimension example_run" "dimension example_run < 2 ^ 32" by simp_all
  have valid: "\<forall>e \<in> set [(1, 0) :: int \<times> int]. 0 \<le> fst e \<and> nat (fst e) < length [[Fin 0], [Fin 1]] \<and>
                                  0 \<le> snd e \<and> nat (snd e) < length [[Fin 0], [Fin 1]]"
    by simp
  have le: "le_d (Fin (1 / 2)) (edge_length [[Fin 0], [Fin 1]] (1, 0))"
    by (simp add: example_edge_length le_d_def)
  have q: "div_d (sub_d (Fin (1 / 2)) (edge_length [[Fin 0], [Fin 1]] (1, 0)))
             (edge_length [[Fin 0], [Fin 1]] (1, 0)) \<noteq> NaN"
    by (simp add: example_edge_length)
  from force_is_repulsive_spring [OF D valid]
  have "\<forall>L0 e. le_d L0 (edge_length [[Fin 0], [Fin 1]] e) \<and>
             div_d (sub_d L0 (edge_length [[Fin 0], [Fin 1]] e)) (edge_length [[Fin 0], [Fin 1]] e) \<noteq> NaN \<longrightarrow>
             spring_force L0 (edge_length [[Fin 0], [Fin 1]] e) = Fin 0"
    by blast
  then have "spring_force (Fin (1 / 2)) (edge_length [[Fin 0], [Fin 1]] (1, 0)) = Fin 0"
    using le q by blast
  then show ?thesis using le by (simp add: example_forceVector)
qed

end
